theory Spec2Isabelle
  imports Main
begin

section \<open>Python strings and the builtins the parser calls\<close>

text \<open>
  A Python \<open>str\<close> is modelled as a \<open>string\<close> whose characters are the code points
  below 256. The builtins are written out for that range: \<open>str.strip\<close>, \<open>str.split\<close>,
  \<open>str.replace\<close>, the substring test \<open>in\<close>, \<open>int\<close>, \<open>os.path.basename\<close> and
  \<open>datetime.strptime\<close> with the one format the parser uses.
\<close>

definition newline :: char where
  "newline = CHR 0x0A"

text \<open>\<open>str.isspace\<close> on one character: what \<open>str.strip()\<close> removes and what \<open>\s\<close> matches.\<close>

definition py_isspace :: "char \<Rightarrow> bool" where
  "py_isspace c =
     (let n = (of_char c :: nat)
      in (9 \<le> n \<and> n \<le> 13) \<or> (28 \<le> n \<and> n \<le> 32) \<or> n = 133 \<or> n = 160)"

text \<open>
  The whitespace \<open>int()\<close> skips around a literal: the C locale's blanks, and the two
  non-ASCII blanks below 256, which CPython rewrites to a space before parsing.
  The separators 28 to 31 are not skipped.
\<close>

definition int_isspace :: "char \<Rightarrow> bool" where
  "int_isspace c =
     (let n = (of_char c :: nat)
      in (9 \<le> n \<and> n \<le> 13) \<or> n = 32 \<or> n = 133 \<or> n = 160)"

definition is_digit :: "char \<Rightarrow> bool" where
  "is_digit c = (48 \<le> (of_char c :: nat) \<and> (of_char c :: nat) \<le> 57)"

definition digit_val :: "char \<Rightarrow> nat" where
  "digit_val c = of_char c - 48"

text \<open>\<open>s.strip()\<close> and \<open>s.strip(chars)\<close>; the parser only strips whitespace or newlines.\<close>

definition strip_where :: "(char \<Rightarrow> bool) \<Rightarrow> string \<Rightarrow> string" where
  "strip_where P s = rev (dropWhile P (rev (dropWhile P s)))"

definition py_strip :: "string \<Rightarrow> string" where
  "py_strip s = strip_where py_isspace s"

definition strip_newlines :: "string \<Rightarrow> string" where
  "strip_newlines s = strip_where (\<lambda>c. c = newline) s"

text \<open>\<open>s.split(c)\<close> for a one-character separator: never an empty list.\<close>

fun py_split :: "char \<Rightarrow> string \<Rightarrow> string list" where
  "py_split c [] = [[]]"
| "py_split c (x # xs) =
     (if x = c then [] # py_split c xs
      else (case py_split c xs of
              w # ws \<Rightarrow> (x # w) # ws
            | [] \<Rightarrow> [[x]]))"

text \<open>\<open>s.split(c, 1)\<close> on a string that contains \<open>c\<close>: the text before the first \<open>c\<close> and the text after it.\<close>

definition split_first :: "char \<Rightarrow> string \<Rightarrow> string \<times> string" where
  "split_first c s = (takeWhile (\<lambda>x. x \<noteq> c) s, tl (dropWhile (\<lambda>x. x \<noteq> c) s))"

text \<open>\<open>sep.join(xs)\<close> for a one-character separator.\<close>

fun py_join :: "char \<Rightarrow> string list \<Rightarrow> string" where
  "py_join c [] = []"
| "py_join c [x] = x"
| "py_join c (x # y # ys) = x @ c # py_join c (y # ys)"

text \<open>\<open>s.replace(c, "")\<close>.\<close>

definition remove_char :: "char \<Rightarrow> string \<Rightarrow> string" where
  "remove_char c s = filter (\<lambda>x. x \<noteq> c) s"

text \<open>\<open>sub in s\<close>.\<close>

fun starts_with :: "string \<Rightarrow> string \<Rightarrow> bool" where
  "starts_with [] s = True"
| "starts_with (p # ps) [] = False"
| "starts_with (p # ps) (x # xs) = (p = x \<and> starts_with ps xs)"

fun contains :: "string \<Rightarrow> string \<Rightarrow> bool" where
  "contains sub [] = (sub = [])"
| "contains sub (x # xs) = (starts_with sub (x # xs) \<or> contains sub xs)"

text \<open>\<open>posixpath.basename\<close>: the text after the last slash.\<close>

definition basename :: "string \<Rightarrow> string" where
  "basename p = rev (takeWhile (\<lambda>x. x \<noteq> CHR ''/'') (rev p))"

subsection \<open>\<open>int(s)\<close>\<close>

text \<open>
  \<open>int\<close> in base 10: blanks around, an optional sign, then decimal digits in which single
  underscores may separate digits. \<open>None\<close> is the \<open>ValueError\<close>. The interpreter's
  configurable limit on the number of digits of a literal is not part of the model.
\<close>

fun int_digits :: "nat \<Rightarrow> string \<Rightarrow> nat option" where
  "int_digits acc [] = Some acc"
| "int_digits acc (c # cs) =
     (if is_digit c then int_digits (10 * acc + digit_val c) cs
      else if c = CHR ''_'' then
        (case cs of [] \<Rightarrow> None
         | d # ds \<Rightarrow> if is_digit d then int_digits acc cs else None)
      else None)"

definition int_body :: "string \<Rightarrow> nat option" where
  "int_body s = (case s of [] \<Rightarrow> None
                 | c # cs \<Rightarrow> if is_digit c then int_digits 0 s else None)"

definition py_int :: "string \<Rightarrow> int option" where
  "py_int s =
     (case strip_where int_isspace s of
        [] \<Rightarrow> None
      | c # cs \<Rightarrow>
          if c = CHR ''-'' then map_option (\<lambda>n. - int n) (int_body cs)
          else if c = CHR ''+'' then map_option int (int_body cs)
          else map_option int (int_body (c # cs)))"

subsection \<open>\<open>datetime.strptime(s, "%Y-%m-%d %H:%M")\<close>\<close>

text \<open>
  \<open>strptime\<close> compiles the format to the regular expression

  \<^verbatim>\<open>(\d\d\d\d)-(1[0-2]|0[1-9]|[1-9])-(3[0-1]|[1-2]\d|0[1-9]|[1-9]| [1-9])\s+(2[0-3]|[0-1]\d|\d):([0-5]\d|\d)\<close>

  matches it at the start of the text, takes the first match in backtracking order,
  raises \<open>ValueError\<close> when there is none or when text remains after it, and raises
  \<open>ValueError\<close> again when the date does not exist. Each piece of the expression is
  a function that lists its ways to match a prefix, in the order the matcher tries them,
  with the text left over. The resulting datetime has its seconds at zero.
\<close>

record datetime =
  dt_year :: nat
  dt_month :: nat
  dt_day :: nat
  dt_hour :: nat
  dt_minute :: nat

definition in_range :: "nat \<Rightarrow> nat \<Rightarrow> char \<Rightarrow> bool" where
  "in_range lo hi c = (is_digit c \<and> lo \<le> digit_val c \<and> digit_val c \<le> hi)"

definition two_digit :: "nat \<Rightarrow> nat \<Rightarrow> nat \<Rightarrow> nat \<Rightarrow> string \<Rightarrow> (nat \<times> string) list" where
  "two_digit lo1 hi1 lo2 hi2 s =
     (case s of
        a # b # r \<Rightarrow>
          if in_range lo1 hi1 a \<and> in_range lo2 hi2 b
          then [(10 * digit_val a + digit_val b, r)] else []
      | _ \<Rightarrow> [])"

definition one_digit :: "nat \<Rightarrow> nat \<Rightarrow> string \<Rightarrow> (nat \<times> string) list" where
  "one_digit lo hi s =
     (case s of a # r \<Rightarrow> if in_range lo hi a then [(digit_val a, r)] else [] | [] \<Rightarrow> [])"

definition match_Y :: "string \<Rightarrow> (nat \<times> string) list" where
  "match_Y s =
     (case s of
        a # b # c # d # r \<Rightarrow>
          if is_digit a \<and> is_digit b \<and> is_digit c \<and> is_digit d
          then [(1000 * digit_val a + 100 * digit_val b + 10 * digit_val c + digit_val d, r)]
          else []
      | _ \<Rightarrow> [])"

definition match_m :: "string \<Rightarrow> (nat \<times> string) list" where
  "match_m s = two_digit 1 1 0 2 s @ two_digit 0 0 1 9 s @ one_digit 1 9 s"

definition match_d :: "string \<Rightarrow> (nat \<times> string) list" where
  "match_d s =
     two_digit 3 3 0 1 s @ two_digit 1 2 0 9 s @ two_digit 0 0 1 9 s @ one_digit 1 9 s
     @ (case s of
          sp # a # r \<Rightarrow> if sp = CHR '' '' \<and> in_range 1 9 a then [(digit_val a, r)] else []
        | _ \<Rightarrow> [])"

definition match_H :: "string \<Rightarrow> (nat \<times> string) list" where
  "match_H s = two_digit 2 2 0 3 s @ two_digit 0 1 0 9 s @ one_digit 0 9 s"

definition match_M :: "string \<Rightarrow> (nat \<times> string) list" where
  "match_M s = two_digit 0 5 0 9 s @ one_digit 0 9 s"

definition match_lit :: "char \<Rightarrow> string \<Rightarrow> string list" where
  "match_lit c s = (case s of x # r \<Rightarrow> if x = c then [r] else [] | [] \<Rightarrow> [])"

text \<open>\<open>\s+\<close> is greedy: the longest run of blanks first, then shorter ones, at least one.\<close>

definition match_spaces :: "string \<Rightarrow> string list" where
  "match_spaces s = map (\<lambda>k. drop k s) (rev [1 ..< Suc (length (takeWhile py_isspace s))])"

text \<open>
  A literal character, or the blanks, after a piece: the ways of the piece that go on,
  in their order.
\<close>

definition then_lit :: "(nat \<times> string) list \<Rightarrow> char \<Rightarrow> (nat \<times> string) list" where
  "then_lit cands c = [(v, r'). (v, r) \<leftarrow> cands, r' \<leftarrow> match_lit c r]"

definition then_spaces :: "(nat \<times> string) list \<Rightarrow> (nat \<times> string) list" where
  "then_spaces cands = [(v, r'). (v, r) \<leftarrow> cands, r' \<leftarrow> match_spaces r]"

definition strptime_match :: "string \<Rightarrow> (nat \<times> nat \<times> nat \<times> nat \<times> nat \<times> string) list" where
  "strptime_match s =
     [(y, m, d, H, M, r).
        (y, r1) \<leftarrow> then_lit (match_Y s) CHR ''-'',
        (m, r2) \<leftarrow> then_lit (match_m r1) CHR ''-'',
        (d, r3) \<leftarrow> then_spaces (match_d r2),
        (H, r4) \<leftarrow> then_lit (match_H r3) CHR '':'',
        (M, r) \<leftarrow> match_M r4]"

definition leap_year :: "nat \<Rightarrow> bool" where
  "leap_year y = (y mod 4 = 0 \<and> (y mod 100 \<noteq> 0 \<or> y mod 400 = 0))"

definition days_in_month :: "nat \<Rightarrow> nat \<Rightarrow> nat" where
  "days_in_month y m =
     (if m = 2 then (if leap_year y then 29 else 28)
      else if m = 4 \<or> m = 6 \<or> m = 9 \<or> m = 11 then 30 else 31)"

definition strptime :: "string \<Rightarrow> datetime option" where
  "strptime s =
     (case strptime_match s of
        [] \<Rightarrow> None
      | (y, m, d, H, M, r) # _ \<Rightarrow>
          if r \<noteq> [] then None
          else if 1 \<le> y \<and> d \<le> days_in_month y m
          then Some \<lparr>dt_year = y, dt_month = m, dt_day = d, dt_hour = H, dt_minute = M\<rparr>
          else None)"

section \<open>Errors\<close>

text \<open>
  The exceptions that leave the parser, under the names the specification gives them:
  \<^item> \<open>FileNotFound\<close>: \<open>open\<close> finds no sidecar file;
  \<^item> \<open>DecodeError\<close>: the sidecar file is not UTF-8;
  \<^item> \<open>InvalidIdentifier\<close>: the \<open>ValueError\<close> of \<open>int\<close> in \<open>parse_gid\<close>;
  \<^item> \<open>TimestampFormatError\<close>: the \<open>ValueError\<close> of \<open>strptime\<close>;
  \<^item> \<open>MissingFieldError v\<close>: the \<open>UnboundLocalError\<close> raised when the return statement
    reads the local variable \<open>v\<close> that no header line assigned;
  \<^item> \<open>OtherOSError\<close>: any other failure of a system call (opening a directory,
    listing a file).
\<close>

datatype error =
    FileNotFound
  | DecodeError
  | InvalidIdentifier
  | TimestampFormatError
  | MissingFieldError string
  | OtherOSError

section \<open>parse_gid\<close>

definition parse_gid :: "string \<Rightarrow> error + int" where
  "parse_gid gallery_folder =
     (let gallery_name = basename gallery_folder
      in if CHR ''['' \<in> set gallery_name \<and> CHR '']'' \<in> set gallery_name
         then (case py_int (remove_char CHR '']'' (last (py_split CHR ''['' gallery_name))) of
                 None \<Rightarrow> Inl InvalidIdentifier
               | Some gid \<Rightarrow> Inr gid)
         else (case py_int gallery_name of
                 None \<Rightarrow> Inl InvalidIdentifier
               | Some gid \<Rightarrow> Inr gid))"

section \<open>The sidecar scanner of parse_galleryinfo\<close>

definition marker :: string where
  "marker = ''Uploader's Comments''"

definition sentinel :: string where
  "sentinel = ''Downloaded from E-Hentai Galleries by the Hentai@Home Downloader <3''"

text \<open>The inner loop over \<open>value.split(",")\<close>, appending one pair for each token.\<close>

fun tags_loop :: "(string \<times> string) list \<Rightarrow> string list \<Rightarrow> (string \<times> string) list" where
  "tags_loop tags [] = tags"
| "tags_loop tags (tag # rest) =
     (if CHR '':'' \<in> set tag then
        (let tag_key = fst (split_first CHR '':'' tag);
             tag_value = snd (split_first CHR '':'' tag)
         in if py_strip tag_key \<noteq> []
            then tags_loop (tags @ [(py_strip tag_key, py_strip tag_value)]) rest
            else tags_loop (tags @ [(''untagged'', py_strip tag_value)]) rest)
      else tags_loop (tags @ [(''untagged'', py_strip tag)]) rest)"

definition parse_tags :: "string \<Rightarrow> (string \<times> string) list" where
  "parse_tags v = tags_loop [] (py_split CHR '','' v)"

text \<open>
  The local variables of \<open>parse_galleryinfo\<close> that the loop over the lines assigns.
  A variable no line has assigned yet is unbound: \<open>None\<close>.
\<close>

record locals =
  comments :: bool
  comment_lines :: "string list"
  tags_var :: "(string \<times> string) list option"
  title_var :: "string option"
  upload_time_var :: "datetime option"
  upload_account_var :: "string option"
  download_time_var :: "datetime option"

definition initial_locals :: locals where
  "initial_locals =
     \<lparr>comments = False, comment_lines = [], tags_var = None, title_var = None,
      upload_time_var = None, upload_account_var = None, download_time_var = None\<rparr>"

text \<open>The branch for a header line that contains a colon: the \<open>match key\<close> statement.\<close>

definition header_line :: "locals \<Rightarrow> string \<Rightarrow> error + locals" where
  "header_line st line =
     (let key = py_strip (fst (split_first CHR '':'' line));
          v = py_strip (snd (split_first CHR '':'' line))
      in if key = ''Tags'' then Inr (st\<lparr>tags_var := Some (parse_tags v)\<rparr>)
         else if key = ''Title'' then Inr (st\<lparr>title_var := Some v\<rparr>)
         else if key = ''Upload Time'' then
           (case strptime v of
              None \<Rightarrow> Inl TimestampFormatError
            | Some t \<Rightarrow> Inr (st\<lparr>upload_time_var := Some t\<rparr>))
         else if key = ''Uploaded By'' then Inr (st\<lparr>upload_account_var := Some v\<rparr>)
         else if key = ''Downloaded'' then
           (case strptime v of
              None \<Rightarrow> Inl TimestampFormatError
            | Some t \<Rightarrow> Inr (st\<lparr>download_time_var := Some t\<rparr>))
         else Inr st)"

text \<open>The loop over the lines. \<open>break\<close> returns the state and drops the remaining lines.\<close>

fun scan_lines :: "locals \<Rightarrow> string list \<Rightarrow> error + locals" where
  "scan_lines st [] = Inr st"
| "scan_lines st (line # rest) =
     (if contains marker line then scan_lines (st\<lparr>comments := True\<rparr>) rest
      else if comments st then
        (if line = sentinel then Inr st
         else scan_lines (st\<lparr>comment_lines := comment_lines st @ [py_strip line]\<rparr>) rest)
      else if CHR '':'' \<in> set line then
        (case header_line st line of
           Inl e \<Rightarrow> Inl e
         | Inr st' \<Rightarrow> scan_lines st' rest)
      else scan_lines st rest)"

section \<open>The file system, the record and parse_galleryinfo\<close>

text \<open>
  The file system maps a path to what is there. A regular file carries the text that
  \<open>read()\<close> returns for it, \<open>None\<close> when its bytes are not UTF-8, and its
  modification time; a directory carries the names \<open>os.listdir\<close> returns.
\<close>

datatype node =
    RegularFile "string option" nat
  | Directory "string list" nat

type_synonym filesystem = "string \<Rightarrow> node option"

definition os_path_join :: "string \<Rightarrow> string \<Rightarrow> string" where
  "os_path_join a b =
     (if starts_with ''/'' b then b
      else if a = [] \<or> last a = CHR ''/'' then a @ b
      else a @ ''/'' @ b)"

definition os_listdir :: "filesystem \<Rightarrow> string \<Rightarrow> error + string list" where
  "os_listdir fs path =
     (case fs path of
        None \<Rightarrow> Inl FileNotFound
      | Some (RegularFile _ _) \<Rightarrow> Inl OtherOSError
      | Some (Directory names _) \<Rightarrow> Inr names)"

definition os_isfile :: "filesystem \<Rightarrow> string \<Rightarrow> bool" where
  "os_isfile fs path = (case fs path of Some (RegularFile _ _) \<Rightarrow> True | _ \<Rightarrow> False)"

definition os_getmtime :: "filesystem \<Rightarrow> string \<Rightarrow> error + nat" where
  "os_getmtime fs path =
     (case fs path of
        None \<Rightarrow> Inl FileNotFound
      | Some (RegularFile _ t) \<Rightarrow> Inr t
      | Some (Directory _ t) \<Rightarrow> Inr t)"

text \<open>\<open>open(path, "r", encoding="utf-8")\<close> followed by \<open>read()\<close>.\<close>

definition read_text :: "filesystem \<Rightarrow> string \<Rightarrow> error + string" where
  "read_text fs path =
     (case fs path of
        None \<Rightarrow> Inl FileNotFound
      | Some (Directory _ _) \<Rightarrow> Inl OtherOSError
      | Some (RegularFile None _) \<Rightarrow> Inl DecodeError
      | Some (RegularFile (Some content) _) \<Rightarrow> Inr content)"

definition count_files_in_directory :: "filesystem \<Rightarrow> string \<Rightarrow> error + nat" where
  "count_files_in_directory fs directory_path =
     (case os_listdir fs directory_path of
        Inl e \<Rightarrow> Inl e
      | Inr names \<Rightarrow>
          Inr (length (filter (\<lambda>f. os_isfile fs (os_path_join directory_path f)) names)))"

text \<open>
  The class \<open>GalleryInfoParser\<close>. The slot \<open>_pages\<close> is the field \<open>pages_slot\<close>;
  \<open>modified_time\<close> holds the time stamp of the sidecar file as the file system gives
  it (its conversion to local time is left out).
\<close>

record GalleryInfoParser =
  gallery_folder :: string
  gallery_name :: string
  gid :: int
  files_path :: "string list"
  modified_time :: nat
  title :: string
  upload_time :: datetime
  galleries_comments :: string
  upload_account :: string
  download_time :: datetime
  tags :: "(string \<times> string) list"
  pages_slot :: int

text \<open>\<open>__init__\<close>: the eleven arguments, and \<open>_pages = -1\<close>.\<close>

definition init :: "string \<Rightarrow> string \<Rightarrow> int \<Rightarrow> string list \<Rightarrow> nat \<Rightarrow> string \<Rightarrow> datetime
    \<Rightarrow> string \<Rightarrow> string \<Rightarrow> datetime \<Rightarrow> (string \<times> string) list \<Rightarrow> GalleryInfoParser" where
  "init folder name g files mt t ut cs ua dt tgs =
     \<lparr>gallery_folder = folder, gallery_name = name, gid = g, files_path = files,
      modified_time = mt, title = t, upload_time = ut, galleries_comments = cs,
      upload_account = ua, download_time = dt, tags = tgs, pages_slot = - 1\<rparr>"

text \<open>
  The property \<open>pages\<close>: the value it returns (or the error of the directory listing)
  and the record after the access.
\<close>

definition pages :: "filesystem \<Rightarrow> GalleryInfoParser \<Rightarrow> (error + int) \<times> GalleryInfoParser" where
  "pages fs self =
     (if pages_slot self = - 1 then
        (case count_files_in_directory fs (gallery_folder self) of
           Inl e \<Rightarrow> (Inl e, self)
         | Inr n \<Rightarrow> (Inr (int n - 1), self\<lparr>pages_slot := int n - 1\<rparr>))
      else (Inr (pages_slot self), self))"

text \<open>
  The return statement: it reads \<open>title\<close>, \<open>upload_time\<close>, \<open>upload_account\<close>,
  \<open>download_time\<close> and \<open>tags\<close> in this order, and the first unbound one raises.
\<close>

definition build_record :: "string \<Rightarrow> string \<Rightarrow> int \<Rightarrow> string list \<Rightarrow> nat \<Rightarrow> locals
    \<Rightarrow> error + GalleryInfoParser" where
  "build_record folder name g files mt st =
     (let cs = strip_newlines (py_join newline (comment_lines st))
      in case title_var st of
           None \<Rightarrow> Inl (MissingFieldError ''title'')
         | Some t \<Rightarrow>
        (case upload_time_var st of
           None \<Rightarrow> Inl (MissingFieldError ''upload_time'')
         | Some ut \<Rightarrow>
        (case upload_account_var st of
           None \<Rightarrow> Inl (MissingFieldError ''upload_account'')
         | Some ua \<Rightarrow>
        (case download_time_var st of
           None \<Rightarrow> Inl (MissingFieldError ''download_time'')
         | Some dt \<Rightarrow>
        (case tags_var st of
           None \<Rightarrow> Inl (MissingFieldError ''tags'')
         | Some tgs \<Rightarrow> Inr (init folder name g files mt t ut cs ua dt tgs))))))"

text \<open>The lines of the sidecar text: \<open>file.read().strip("\n").split("\n")\<close>.\<close>

definition sidecar_lines :: "string \<Rightarrow> string list" where
  "sidecar_lines content = py_split newline (strip_newlines content)"

definition parse_galleryinfo :: "filesystem \<Rightarrow> string \<Rightarrow> error + GalleryInfoParser" where
  "parse_galleryinfo fs folder =
     (let gallery_info_path = os_path_join folder ''galleryinfo.txt''
      in case read_text fs gallery_info_path of
           Inl e \<Rightarrow> Inl e
         | Inr content \<Rightarrow>
        (case parse_gid folder of
           Inl e \<Rightarrow> Inl e
         | Inr g \<Rightarrow>
        (case os_listdir fs folder of
           Inl e \<Rightarrow> Inl e
         | Inr files \<Rightarrow>
        (case os_getmtime fs gallery_info_path of
           Inl e \<Rightarrow> Inl e
         | Inr mt \<Rightarrow>
        (case scan_lines initial_locals (sidecar_lines content) of
           Inl e \<Rightarrow> Inl e
         | Inr st \<Rightarrow> build_record folder (basename folder) g files mt st)))))"

section \<open>Notions the properties are stated with\<close>







text \<open>
  A folder without a regular file, the same folder after five files have been put there,
  and a record for it as the constructor makes it.
\<close>

definition empty_gallery :: filesystem where
  "empty_gallery = (\<lambda>p. if p = ''g'' then Some (Directory [] 0) else None)"

definition refilled_gallery :: filesystem where
  "refilled_gallery =
     (\<lambda>p. if p = ''g'' then Some (Directory [''1.jpg'', ''2.jpg'', ''3.jpg'', ''4.jpg'', ''5.jpg''] 1)
          else if p \<in> set [''g/1.jpg'', ''g/2.jpg'', ''g/3.jpg'', ''g/4.jpg'', ''g/5.jpg'']
          then Some (RegularFile None 1)
          else None)"

definition epoch :: datetime where
  "epoch = \<lparr>dt_year = 1970, dt_month = 1, dt_day = 1, dt_hour = 0, dt_minute = 0\<rparr>"

definition fresh_record :: GalleryInfoParser where
  "fresh_record = init ''g'' ''g'' 0 [] 0 [] epoch [] [] epoch []"

text \<open>
  One tag in the specification's words: trim the token; with a colon, split at the first
  one, trim both parts and put \<open>untagged\<close> for an empty category; without, the pair
  of \<open>untagged\<close> and the trimmed token.
\<close>

definition spec_tag :: "string \<Rightarrow> string \<times> string" where
  "spec_tag token =
     (let t = py_strip token
      in if CHR '':'' \<in> set t
         then (let category = py_strip (fst (split_first CHR '':'' t));
                   v = py_strip (snd (split_first CHR '':'' t))
               in (if category = [] then ''untagged'' else category, v))
         else (''untagged'', t))"

text \<open>
  The sidecar as the scanner sees it. The header section is the lines before the first
  line that contains the comment marker; a header line with a colon has a key and a
  value; \<open>header_values k\<close> lists the values of the header lines with key \<open>k\<close>, in
  order. The comment section is what follows the first marker line.
\<close>

definition line_key :: "string \<Rightarrow> string" where
  "line_key l = py_strip (fst (split_first CHR '':'' l))"

definition line_value :: "string \<Rightarrow> string" where
  "line_value l = py_strip (snd (split_first CHR '':'' l))"

definition field_values :: "string \<Rightarrow> string list \<Rightarrow> string list" where
  "field_values k hs = map line_value (filter (\<lambda>l. CHR '':'' \<in> set l \<and> line_key l = k) hs)"

definition header_section :: "string list \<Rightarrow> string list" where
  "header_section ls = takeWhile (\<lambda>l. \<not> contains marker l) ls"

definition comment_section :: "string list \<Rightarrow> string list" where
  "comment_section ls = tl (dropWhile (\<lambda>l. \<not> contains marker l) ls)"

definition header_values :: "string \<Rightarrow> string list \<Rightarrow> string list" where
  "header_values k ls = field_values k (header_section ls)"

text \<open>All the time stamps of the given header lines match the format.\<close>

definition timestamps_ok :: "string list \<Rightarrow> bool" where
  "timestamps_ok hs =
     list_all (\<lambda>v. strptime v \<noteq> None)
       (field_values ''Upload Time'' hs @ field_values ''Downloaded'' hs)"

text \<open>The value a variable holds after a sequence of assignments: the last one.\<close>

fun latest :: "'a option \<Rightarrow> 'a list \<Rightarrow> 'a option" where
  "latest d [] = d"
| "latest d (x # xs) = latest (Some x) xs"

text \<open>
  What the scanner puts into the comment buffer from the lines it reads in the comment
  state: the lines before the first sentinel line, without those that contain the
  marker, each one trimmed.
\<close>

definition comment_buffer :: "string list \<Rightarrow> string list" where
  "comment_buffer ls =
     map py_strip (filter (\<lambda>l. \<not> contains marker l) (takeWhile (\<lambda>l. l \<noteq> sentinel) ls))"

text \<open>
  The comment buffer in the specification's words: every line before the first sentinel
  line, trimmed.
\<close>

definition spec_comment_buffer :: "string list \<Rightarrow> string list" where
  "spec_comment_buffer ls = map py_strip (takeWhile (\<lambda>l. l \<noteq> sentinel) ls)"

text \<open>The header variables after the given header lines, from their values before.\<close>

definition fields_from :: "locals \<Rightarrow> string list \<Rightarrow> locals \<Rightarrow> bool" where
  "fields_from st hs st' =
     (title_var st' = latest (title_var st) (field_values ''Title'' hs)
      \<and> upload_account_var st' = latest (upload_account_var st) (field_values ''Uploaded By'' hs)
      \<and> tags_var st' = latest (tags_var st) (map parse_tags (field_values ''Tags'' hs))
      \<and> upload_time_var st' = latest (upload_time_var st) (List.map_filter strptime (field_values ''Upload Time'' hs))
      \<and> download_time_var st' = latest (download_time_var st) (List.map_filter strptime (field_values ''Downloaded'' hs)))"

text \<open>The variables after the loop, for the whole sidecar.\<close>

definition scanned :: "string list \<Rightarrow> locals \<Rightarrow> bool" where
  "scanned ls st =
     (comment_lines st = comment_buffer (comment_section ls)
      \<and> title_var st = (if header_values ''Title'' ls = [] then None else Some (last (header_values ''Title'' ls)))
      \<and> upload_account_var st =
          (if header_values ''Uploaded By'' ls = [] then None else Some (last (header_values ''Uploaded By'' ls)))
      \<and> tags_var st =
          (if header_values ''Tags'' ls = [] then None else Some (parse_tags (last (header_values ''Tags'' ls))))
      \<and> upload_time_var st =
          (if header_values ''Upload Time'' ls = [] then None else strptime (last (header_values ''Upload Time'' ls)))
      \<and> download_time_var st =
          (if header_values ''Downloaded'' ls = [] then None else strptime (last (header_values ''Downloaded'' ls))))"

text \<open>
  Example inputs: a text of newline-terminated lines, and the file system that holds one
  gallery folder with nothing but a sidecar file of the given text.
\<close>

definition unlines :: "string list \<Rightarrow> string" where
  "unlines ls = concat (map (\<lambda>l. l @ [newline]) ls)"

definition gallery_fs :: "string \<Rightarrow> string \<Rightarrow> filesystem" where
  "gallery_fs folder content =
     (\<lambda>p. if p = folder then Some (Directory [''galleryinfo.txt''] 0)
          else if p = os_path_join folder ''galleryinfo.txt'' then Some (RegularFile (Some content) 0)
          else None)"




definition sidecar_repeated :: string where
  "sidecar_repeated =
     unlines [''Title: First'', ''Upload Time: 2020-01-05 10:00'', ''Uploaded By: me'',
              ''Title: Second'', ''Downloaded: 2021-02-03 04:05'', ''Tags: a:1'',
              ''Tags: b:2, 3'', ''Downloaded: 2022-03-04 05:06'', '''',
              ''Uploader's Comments:'', ''Title: Third'', ''hello'',
              ''Downloaded from E-Hentai Galleries by the Hentai@Home Downloader <3'',
              ''ignored'']"













section \<open>Verified properties\<close>

subsection \<open>The folder identifier\<close>













lemma takeWhile_neq_append: "c \<notin> set b \<Longrightarrow> takeWhile (\<lambda>x. x \<noteq> c) (b @ ys) = b @ takeWhile (\<lambda>x. x \<noteq> c) ys"
  by (rule takeWhile_append2) auto













subsection \<open>The page count\<close>

lemma pages_first_access:
  "pages_slot r = - 1 \<Longrightarrow> count_files_in_directory fs (gallery_folder r) = Inr n \<Longrightarrow>
   pages fs r = (Inr (int n - 1), r\<lparr>pages_slot := int n - 1\<rparr>)"
  by (simp add: pages_def)

lemma pages_cached: "pages_slot r \<noteq> - 1 \<Longrightarrow> pages fs r = (Inr (pages_slot r), r)"
  by (simp add: pages_def)

lemma pages_stable:
  "pages fs r = (Inr v, r') \<Longrightarrow> v \<noteq> - 1 \<Longrightarrow> pages fs' r' = (Inr v, r')"
  by (auto simp: pages_def split: if_splits sum.splits)

text \<open>
  C2 at a folder without regular files: the first access of \<open>pages\<close> computes
  \<open>0 - 1\<close>, which is the value that marks the slot as not computed, so the access
  after five files have arrived counts again and returns 4 instead of the first value.
\<close>

theorem pages_recomputed_after_minus_one:
  "fst (pages empty_gallery fresh_record) = Inr (- 1)
   \<and> fst (pages refilled_gallery (snd (pages empty_gallery fresh_record))) = Inr 4"
  by (simp add: pages_def count_files_in_directory_def os_listdir_def os_isfile_def os_path_join_def
      empty_gallery_def refilled_gallery_def fresh_record_def init_def)

subsection \<open>The tag list\<close>

lemma rstrip_Cons:
  "rev (dropWhile P (rev (x # xs))) =
     (if P x \<and> (\<forall>y \<in> set xs. P y) then [] else x # rev (dropWhile P (rev xs)))"
proof (cases "\<forall>y \<in> set xs. P y")
  case True
  then have e: "dropWhile P (rev xs) = []" by simp
  have "dropWhile P (rev xs @ [x]) = dropWhile P [x]"
    by (rule dropWhile_append2) (use True in auto)
  then show ?thesis using True e by simp
next
  case False
  then obtain y where y: "y \<in> set (rev xs)" "\<not> P y" by auto
  have "dropWhile P (rev xs @ [x]) = dropWhile P (rev xs) @ [x]"
    using y by (rule dropWhile_append1)
  then show ?thesis using False by simp
qed

lemma lstrip_rstrip:
  "dropWhile P (rev (dropWhile P (rev b))) = rev (dropWhile P (rev (dropWhile P b)))"
proof (induction b)
  case Nil
  then show ?case by simp
next
  case (Cons x xs)
  note r = rstrip_Cons[of P x xs]
  show ?case
  proof (cases "P x")
    case True
    then have d: "dropWhile P (x # xs) = dropWhile P xs" by simp
    show ?thesis
    proof (cases "\<forall>y \<in> set xs. P y")
      case all: True
      then have e: "dropWhile P xs = []" by simp
      have l: "rev (dropWhile P (rev (x # xs))) = []"
        unfolding r using True all by simp
      show ?thesis unfolding l d e by simp
    next
      case False
      then have l: "rev (dropWhile P (rev (x # xs))) = x # rev (dropWhile P (rev xs))"
        unfolding r by simp
      show ?thesis unfolding l d using True Cons by simp
    qed
  next
    case False
    then have d: "dropWhile P (x # xs) = x # xs" by simp
    have l: "rev (dropWhile P (rev (x # xs))) = x # rev (dropWhile P (rev xs))"
      unfolding r using False by simp
    show ?thesis unfolding d l using False by simp
  qed
qed

lemma strip_where_lstrip: "strip_where P (dropWhile P s) = strip_where P s"
  by (simp add: strip_where_def)

lemma strip_where_rstrip: "strip_where P (rev (dropWhile P (rev s))) = strip_where P s"
  unfolding strip_where_def by (simp only: lstrip_rstrip rev_rev_ident dropWhile_idem)

lemma strip_where_split:
  assumes "\<not> P c" and "c \<notin> set a"
  shows "strip_where P (a @ c # b) = dropWhile P a @ c # rev (dropWhile P (rev b))"
proof -
  have 1: "dropWhile P (a @ c # b) = dropWhile P a @ c # b"
    using assms(1) by (rule dropWhile_append3)
  have 2: "dropWhile P (rev b @ c # rev (dropWhile P a)) = dropWhile P (rev b) @ c # rev (dropWhile P a)"
    using assms(1) by (rule dropWhile_append3)
  show ?thesis unfolding strip_where_def 1 using 2 by simp
qed

lemma split_first_append: "c \<notin> set a \<Longrightarrow> split_first c (a @ c # b) = (a, b)"
proof -
  assume n: "c \<notin> set a"
  have 1: "takeWhile (\<lambda>x. x \<noteq> c) (a @ c # b) = a"
    using takeWhile_neq_append[OF n, of "c # b"] by simp
  have 2: "dropWhile (\<lambda>x. x \<noteq> c) (a @ c # b) = c # b"
    using n by (subst dropWhile_append2) auto
  show ?thesis unfolding split_first_def 1 2 by simp
qed

lemma strip_where_mem:
  assumes "\<not> P c"
  shows "(c \<in> set (strip_where P s)) = (c \<in> set s)"
proof
  assume "c \<in> set (strip_where P s)"
  then show "c \<in> set s"
    unfolding strip_where_def by (metis set_dropWhileD set_rev)
next
  assume "c \<in> set s"
  then obtain a b where s: "s = a @ c # b" "c \<notin> set a"
    by (meson split_list_first)
  show "c \<in> set (strip_where P s)"
    unfolding s(1) strip_where_split[of P c a, OF assms s(2)] by simp
qed

lemma strip_split_first:
  assumes "\<not> P c" and "c \<in> set s"
  shows "strip_where P (fst (split_first c (strip_where P s))) = strip_where P (fst (split_first c s))"
    and "strip_where P (snd (split_first c (strip_where P s))) = strip_where P (snd (split_first c s))"
proof -
  from assms(2) obtain a b where s: "s = a @ c # b" "c \<notin> set a"
    by (meson split_list_first)
  have n: "c \<notin> set (dropWhile P a)" using s(2) by (meson set_dropWhileD)
  show "strip_where P (fst (split_first c (strip_where P s))) = strip_where P (fst (split_first c s))"
    unfolding s(1) strip_where_split[of P c a, OF assms(1) s(2)] split_first_append[OF s(2)] split_first_append[OF n]
    by (simp add: strip_where_lstrip)
  show "strip_where P (snd (split_first c (strip_where P s))) = strip_where P (snd (split_first c s))"
    unfolding s(1) strip_where_split[of P c a, OF assms(1) s(2)] split_first_append[OF s(2)] split_first_append[OF n]
    by (simp add: strip_where_rstrip)
qed

lemma colon_not_space: "\<not> py_isspace CHR '':''"
  by (simp add: py_isspace_def)

lemma tags_loop_map:
  "tags_loop acc ts = acc @ map spec_tag ts"
proof (induction ts arbitrary: acc)
  case Nil
  then show ?case by simp
next
  case (Cons t ts)
  have m: "(CHR '':'' \<in> set (py_strip t)) = (CHR '':'' \<in> set t)"
    unfolding py_strip_def by (rule strip_where_mem[of py_isspace "CHR '':''", OF colon_not_space])
  show ?case
  proof (cases "CHR '':'' \<in> set t")
    case True
    note sp = strip_split_first[of py_isspace "CHR '':''" t, OF colon_not_space True, folded py_strip_def]
    show ?thesis using True m Cons
      by (simp add: spec_tag_def Let_def sp)
  next
    case False
    then show ?thesis using m Cons by (simp add: spec_tag_def Let_def)
  qed
qed

text \<open>
  C6: the tag parser splits the value at the commas and turns every token, in order and
  with duplicates kept, into the pair the specification describes: the token is trimmed;
  with a colon it is split at the first one into a trimmed category and a trimmed value,
  \<open>untagged\<close> standing in for an empty category; without a colon it gives
  \<open>untagged\<close> with the trimmed token. \<open>a:1, b:2, 3\<close> and \<open>:x\<close> give the lists
  of the specification.
\<close>

theorem parse_tags_tokens:
  "parse_tags v = map spec_tag (py_split CHR '','' v)
   \<and> parse_tags ''a:1, b:2, 3'' = [(''a'', ''1''), (''b'', ''2''), (''untagged'', ''3'')]
   \<and> parse_tags '':x'' = [(''untagged'', ''x'')]"
proof -
  have 1: "parse_tags v = map spec_tag (py_split CHR '','' v)"
    by (simp add: parse_tags_def tags_loop_map)
  have 2: "parse_tags ''a:1, b:2, 3'' = [(''a'', ''1''), (''b'', ''2''), (''untagged'', ''3'')]"
    by code_simp
  have 3: "parse_tags '':x'' = [(''untagged'', ''x'')]"
    by code_simp
  from 1 2 3 show ?thesis by simp
qed

theorem parse_tags_tokens_witness:
  "parse_tags ''artist:foo bar, female:glasses, artist:foo bar, full color'' =
     [(''artist'', ''foo bar''), (''female'', ''glasses''), (''artist'', ''foo bar''),
      (''untagged'', ''full color'')]"
proof -
  have "map spec_tag (py_split CHR '','' ''artist:foo bar, female:glasses, artist:foo bar, full color'') =
     [(''artist'', ''foo bar''), (''female'', ''glasses''), (''artist'', ''foo bar''),
      (''untagged'', ''full color'')]"
    by code_simp
  then show ?thesis
    using parse_tags_tokens [of "''artist:foo bar, female:glasses, artist:foo bar, full color''"]
    by simp
qed

subsection \<open>The scan of the sidecar lines\<close>

lemma sentinel_no_marker: "\<not> contains marker sentinel"
  by code_simp

lemma comments_update_id: "comments st \<Longrightarrow> st\<lparr>comments := True\<rparr> = st"
  by simp

lemma scan_comment_state:
  "comments st \<Longrightarrow>
   scan_lines st ls = Inr (st\<lparr>comment_lines := comment_lines st @ comment_buffer ls\<rparr>)"
proof (induction ls arbitrary: st)
  case Nil
  then show ?case by (simp add: comment_buffer_def)
next
  case (Cons l ls)
  show ?case
  proof (cases "contains marker l")
    case True
    then have ns: "l \<noteq> sentinel" using sentinel_no_marker by auto
    have "scan_lines st (l # ls) = scan_lines st ls"
      using True Cons.prems by (simp add: comments_update_id)
    then show ?thesis using Cons.IH[OF Cons.prems] True ns
      by (simp add: comment_buffer_def)
  next
    case False
    show ?thesis
    proof (cases "l = sentinel")
      case True
      then show ?thesis using False Cons.prems by (simp add: comment_buffer_def)
    next
      case ns: False
      let ?st = "st\<lparr>comment_lines := comment_lines st @ [py_strip l]\<rparr>"
      have c: "comments ?st" using Cons.prems by simp
      show ?thesis using Cons.IH[OF c] False ns Cons.prems
        by (simp add: comment_buffer_def)
    qed
  qed
qed

lemma header_line_bad:
  "(line_key l = ''Upload Time'' \<or> line_key l = ''Downloaded'') \<Longrightarrow> strptime (line_value l) = None \<Longrightarrow>
   header_line st l = Inl TimestampFormatError"
  by (auto simp: header_line_def line_key_def line_value_def Let_def)

lemma header_line_error:
  "header_line st l = Inl e \<Longrightarrow>
   e = TimestampFormatError \<and> (line_key l = ''Upload Time'' \<or> line_key l = ''Downloaded'') \<and> strptime (line_value l) = None"
  by (auto simp: header_line_def line_key_def line_value_def Let_def split: if_splits option.splits)

lemma header_line_ok:
  "header_line st l = Inr st' \<Longrightarrow>
   comments st' = comments st \<and> comment_lines st' = comment_lines st
   \<and> title_var st' = (if line_key l = ''Title'' then Some (line_value l) else title_var st)
   \<and> upload_account_var st' = (if line_key l = ''Uploaded By'' then Some (line_value l) else upload_account_var st)
   \<and> tags_var st' = (if line_key l = ''Tags'' then Some (parse_tags (line_value l)) else tags_var st)
   \<and> upload_time_var st' = (if line_key l = ''Upload Time'' then strptime (line_value l) else upload_time_var st)
   \<and> download_time_var st' = (if line_key l = ''Downloaded'' then strptime (line_value l) else download_time_var st)"
  by (auto simp: header_line_def line_key_def line_value_def Let_def split: if_splits option.splits)


lemma field_values_Cons:
  "field_values k (l # hs) =
     (if CHR '':'' \<in> set l \<and> line_key l = k then line_value l # field_values k hs else field_values k hs)"
  by (simp add: field_values_def)

lemma timestamps_ok_Cons:
  "timestamps_ok (l # hs) =
     ((CHR '':'' \<in> set l \<and> (line_key l = ''Upload Time'' \<or> line_key l = ''Downloaded'') \<longrightarrow> strptime (line_value l) \<noteq> None)
      \<and> timestamps_ok hs)"
  by (auto simp: timestamps_ok_def field_values_Cons)

lemma scan_header_lines:
  assumes "\<not> comments st" and "\<forall>l \<in> set hs. \<not> contains marker l"
  shows "timestamps_ok hs \<Longrightarrow>
           \<exists>st'. scan_lines st hs = Inr st' \<and> \<not> comments st' \<and> comment_lines st' = comment_lines st
                \<and> fields_from st hs st'"
    and "\<not> timestamps_ok hs \<Longrightarrow> scan_lines st hs = Inl TimestampFormatError"
  using assms
proof (induction hs arbitrary: st)
  case Nil
  {
    case 1
    then show ?case by (simp add: fields_from_def field_values_def)
  next
    case 2
    then show ?case by (simp add: timestamps_ok_def field_values_def)
  }
next
  case (Cons l hs)
  {
    case 1
    have nm: "\<not> contains marker l" and rest: "\<forall>l \<in> set hs. \<not> contains marker l"
      using 1(3) by simp_all
    have okr: "timestamps_ok hs" using 1(1) by (simp add: timestamps_ok_Cons)
    show ?case
    proof (cases "CHR '':'' \<in> set l")
      case False
      then have e: "scan_lines st (l # hs) = scan_lines st hs"
        using nm 1(2) by simp
      from Cons.IH(1)[OF okr 1(2) rest]
      show ?thesis using False by (simp add: e fields_from_def field_values_Cons del: scan_lines.simps)
    next
      case True
      have "\<exists>st1. header_line st l = Inr st1"
      proof (cases "header_line st l")
        case (Inl e)
        from header_line_error[OF Inl] 1(1) True show ?thesis
          by (auto simp: timestamps_ok_Cons)
      next
        case (Inr st1)
        then show ?thesis by blast
      qed
      then obtain st1 where h: "header_line st l = Inr st1" by blast
      note f = header_line_ok[OF h]
      have c1: "\<not> comments st1" using f 1(2) by simp
      have e: "scan_lines st (l # hs) = scan_lines st1 hs"
        using nm 1(2) True h by simp
      from Cons.IH(1)[OF okr c1 rest] obtain st' where
        s: "scan_lines st1 hs = Inr st'" "\<not> comments st'" "comment_lines st' = comment_lines st1"
          "fields_from st1 hs st'" by blast
      have ok1: "line_key l = ''Upload Time'' \<Longrightarrow> strptime (line_value l) \<noteq> None"
         and ok2: "line_key l = ''Downloaded'' \<Longrightarrow> strptime (line_value l) \<noteq> None"
        using 1(1) True by (auto simp: timestamps_ok_Cons)
      have "fields_from st (l # hs) st'"
        using s(4) f True ok1 ok2
        by (auto simp: fields_from_def field_values_Cons List.map_filter_simps)
      then show ?thesis using s f by (simp add: e del: scan_lines.simps)
    qed
  next
    case 2
    have nm: "\<not> contains marker l" and rest: "\<forall>l \<in> set hs. \<not> contains marker l"
      using 2(3) by simp_all
    show ?case
    proof (cases "CHR '':'' \<in> set l \<and> (line_key l = ''Upload Time'' \<or> line_key l = ''Downloaded'') \<and> strptime (line_value l) = None")
      case True
      then have "header_line st l = Inl TimestampFormatError"
        using header_line_bad by blast
      then show ?thesis using nm 2(2) True by simp
    next
      case False
      then have bad: "\<not> timestamps_ok hs" using 2(1) by (auto simp: timestamps_ok_Cons)
      show ?thesis
      proof (cases "CHR '':'' \<in> set l")
        case nc: False
        then have e: "scan_lines st (l # hs) = scan_lines st hs"
          using nm 2(2) by simp
        show ?thesis using Cons.IH(2)[OF bad 2(2) rest] by (simp add: e del: scan_lines.simps)
      next
        case True
        have "\<exists>st1. header_line st l = Inr st1"
        proof (cases "header_line st l")
          case (Inl e)
          from header_line_error[OF Inl] False True show ?thesis by auto
        next
          case (Inr st1)
          then show ?thesis by blast
        qed
        then obtain st1 where h: "header_line st l = Inr st1" by blast
        have c1: "\<not> comments st1" using header_line_ok[OF h] 2(2) by simp
        have e: "scan_lines st (l # hs) = scan_lines st1 hs"
          using nm 2(2) True h by simp
        show ?thesis using Cons.IH(2)[OF bad c1 rest] by (simp add: e del: scan_lines.simps)
      qed
    qed
  }
qed

lemma scan_lines_append:
  assumes "\<not> comments st" and "\<forall>l \<in> set hs. \<not> contains marker l"
  shows "scan_lines st (hs @ rest) =
           (case scan_lines st hs of Inl e \<Rightarrow> Inl e | Inr st' \<Rightarrow> scan_lines st' rest)"
  using assms
proof (induction hs arbitrary: st)
  case Nil
  then show ?case by simp
next
  case (Cons l hs)
  have nm: "\<not> contains marker l" and r: "\<forall>l \<in> set hs. \<not> contains marker l"
    using Cons.prems(2) by simp_all
  show ?case
  proof (cases "CHR '':'' \<in> set l")
    case False
    then show ?thesis using nm Cons.prems(1) Cons.IH[OF Cons.prems(1) r] by simp
  next
    case True
    show ?thesis
    proof (cases "header_line st l")
      case (Inl e)
      then show ?thesis using nm Cons.prems(1) True by simp
    next
      case (Inr st1)
      have c1: "\<not> comments st1" using header_line_ok[OF Inr] Cons.prems(1) by simp
      show ?thesis using nm Cons.prems(1) True Inr Cons.IH[OF c1 r] by simp
    qed
  qed
qed


lemma latest_last: "latest d vs = (if vs = [] then d else Some (last vs))"
  by (induction vs arbitrary: d) auto

lemma map_filter_all:
  "list_all (\<lambda>v. f v \<noteq> None) vs \<Longrightarrow> List.map_filter f vs = map (\<lambda>v. the (f v)) vs"
  by (induction vs) (auto simp: List.map_filter_simps)

lemma latest_map_filter:
  assumes "list_all (\<lambda>v. f v \<noteq> None) vs"
  shows "latest None (List.map_filter f vs) = (if vs = [] then None else f (last vs))"
proof (cases "vs = []")
  case True
  then show ?thesis by (simp add: List.map_filter_simps)
next
  case False
  then have "last vs \<in> set vs" by simp
  then have "f (last vs) \<noteq> None" using assms by (simp add: list_all_iff)
  then show ?thesis using False
    by (auto simp: map_filter_all[OF assms] latest_last last_map)
qed

lemma timestamps_ok_parts:
  "timestamps_ok hs \<Longrightarrow> list_all (\<lambda>v. strptime v \<noteq> None) (field_values ''Upload Time'' hs)"
  "timestamps_ok hs \<Longrightarrow> list_all (\<lambda>v. strptime v \<noteq> None) (field_values ''Downloaded'' hs)"
  by (simp_all add: timestamps_ok_def)

lemma fields_from_initial:
  assumes "timestamps_ok hs" and "fields_from initial_locals hs st"
  shows "title_var st = (if field_values ''Title'' hs = [] then None else Some (last (field_values ''Title'' hs)))"
    and "upload_account_var st =
          (if field_values ''Uploaded By'' hs = [] then None else Some (last (field_values ''Uploaded By'' hs)))"
    and "tags_var st =
          (if field_values ''Tags'' hs = [] then None else Some (parse_tags (last (field_values ''Tags'' hs))))"
    and "upload_time_var st =
          (if field_values ''Upload Time'' hs = [] then None else strptime (last (field_values ''Upload Time'' hs)))"
    and "download_time_var st =
          (if field_values ''Downloaded'' hs = [] then None else strptime (last (field_values ''Downloaded'' hs)))"
  using assms(2) latest_map_filter[OF timestamps_ok_parts(1)[OF assms(1)]]
    latest_map_filter[OF timestamps_ok_parts(2)[OF assms(1)]]
  by (simp_all add: fields_from_def initial_locals_def latest_last last_map)

lemma scan_sidecar:
  shows "timestamps_ok (header_section ls) \<Longrightarrow> \<exists>st. scan_lines initial_locals ls = Inr st \<and> scanned ls st"
    and "\<not> timestamps_ok (header_section ls) \<Longrightarrow> scan_lines initial_locals ls = Inl TimestampFormatError"
proof -
  let ?hs = "header_section ls"
  let ?rest = "dropWhile (\<lambda>l. \<not> contains marker l) ls"
  have split: "ls = ?hs @ ?rest" by (simp add: header_section_def)
  have nc: "\<not> comments initial_locals" by (simp add: initial_locals_def)
  have nm: "\<forall>l \<in> set ?hs. \<not> contains marker l"
    by (auto simp: header_section_def dest: set_takeWhileD)
  have app: "scan_lines initial_locals ls =
      (case scan_lines initial_locals ?hs of Inl e \<Rightarrow> Inl e | Inr st' \<Rightarrow> scan_lines st' ?rest)"
    using scan_lines_append[OF nc nm, of ?rest] split by simp
  {
    assume ok: "timestamps_ok ?hs"
    from scan_header_lines(1)[OF nc nm ok] obtain st1 where
      s1: "scan_lines initial_locals ?hs = Inr st1" "\<not> comments st1"
        "comment_lines st1 = comment_lines initial_locals" "fields_from initial_locals ?hs st1"
      by blast
    note f = fields_from_initial[OF ok s1(4)]
    have cl: "comment_lines st1 = []" using s1(3) by (simp add: initial_locals_def)
    show "\<exists>st. scan_lines initial_locals ls = Inr st \<and> scanned ls st"
    proof (cases ?rest)
      case Nil
      have "scan_lines initial_locals ls = Inr st1" unfolding app s1(1) Nil by simp
      moreover have "scanned ls st1"
        unfolding scanned_def header_values_def comment_section_def Nil
        using f cl by (simp add: comment_buffer_def)
      ultimately show ?thesis by blast
    next
      case (Cons m after)
      then have "contains marker m" using hd_dropWhile[of "\<lambda>l. \<not> contains marker l" ls] by auto
      then have "scan_lines st1 ?rest = scan_lines (st1\<lparr>comments := True\<rparr>) after"
        unfolding Cons by simp
      also have "\<dots> = Inr (st1\<lparr>comments := True, comment_lines := comment_buffer after\<rparr>)"
        using scan_comment_state[of "st1\<lparr>comments := True\<rparr>" after] cl by simp
      finally have "scan_lines initial_locals ls = Inr (st1\<lparr>comments := True, comment_lines := comment_buffer after\<rparr>)"
        using app s1(1) by simp
      moreover have "scanned ls (st1\<lparr>comments := True, comment_lines := comment_buffer after\<rparr>)"
        unfolding scanned_def header_values_def comment_section_def Cons
        using f by simp
      ultimately show ?thesis by blast
    qed
  }
  {
    assume "\<not> timestamps_ok ?hs"
    from scan_header_lines(2)[OF nc nm this] show "scan_lines initial_locals ls = Inl TimestampFormatError"
      using app by simp
  }
qed


lemma read_text_mtime:
  "read_text fs p = Inr content \<Longrightarrow> \<exists>mt. os_getmtime fs p = Inr mt"
  by (auto simp: read_text_def os_getmtime_def split: option.splits node.splits)

lemma parse_outcome:
  assumes "read_text fs (os_path_join folder ''galleryinfo.txt'') = Inr content"
  shows "\<exists>mt. parse_galleryinfo fs folder =
           (case parse_gid folder of
              Inl e \<Rightarrow> Inl e
            | Inr g \<Rightarrow>
           (case os_listdir fs folder of
              Inl e \<Rightarrow> Inl e
            | Inr files \<Rightarrow>
           (case scan_lines initial_locals (sidecar_lines content) of
              Inl e \<Rightarrow> Inl e
            | Inr st \<Rightarrow> build_record folder (basename folder) g files mt st)))"
proof -
  from read_text_mtime[OF assms] obtain mt where
    "os_getmtime fs (os_path_join folder ''galleryinfo.txt'') = Inr mt" by blast
  then show ?thesis using assms
    by (auto simp: parse_galleryinfo_def Let_def split: sum.splits)
qed

lemma build_record_Inr:
  "build_record folder name g files mt st = Inr r \<Longrightarrow>
   title_var st = Some (title r) \<and> upload_time_var st = Some (upload_time r)
   \<and> upload_account_var st = Some (upload_account r) \<and> download_time_var st = Some (download_time r)
   \<and> tags_var st = Some (tags r)
   \<and> galleries_comments r = strip_newlines (py_join newline (comment_lines st))"
  by (auto simp: build_record_def init_def Let_def split: option.splits)




text \<open>What a returned record says about the scan.\<close>

lemma parse_Inr_scanned:
  assumes "read_text fs (os_path_join folder ''galleryinfo.txt'') = Inr content"
    and "parse_galleryinfo fs folder = Inr r"
  shows "\<exists>st g files mt. timestamps_ok (header_section (sidecar_lines content))
           \<and> scan_lines initial_locals (sidecar_lines content) = Inr st
           \<and> scanned (sidecar_lines content) st
           \<and> build_record folder (basename folder) g files mt st = Inr r"
proof -
  let ?ls = "sidecar_lines content"
  from parse_outcome[OF assms(1)] obtain mt where p: "parse_galleryinfo fs folder =
           (case parse_gid folder of
              Inl e \<Rightarrow> Inl e
            | Inr g \<Rightarrow>
           (case os_listdir fs folder of
              Inl e \<Rightarrow> Inl e
            | Inr files \<Rightarrow>
           (case scan_lines initial_locals ?ls of
              Inl e \<Rightarrow> Inl e
            | Inr st \<Rightarrow> build_record folder (basename folder) g files mt st)))" by blast
  obtain g where g: "parse_gid folder = Inr g"
    using p assms(2) by (cases "parse_gid folder") auto
  obtain files where f: "os_listdir fs folder = Inr files"
    using p assms(2) g by (cases "os_listdir fs folder") auto
  obtain st where s: "scan_lines initial_locals ?ls = Inr st"
    using p assms(2) g f by (cases "scan_lines initial_locals ?ls") auto
  have b: "build_record folder (basename folder) g files mt st = Inr r"
    using p assms(2) g f s by simp
  have ok: "timestamps_ok (header_section ?ls)"
    using scan_sidecar(2)[of ?ls] s by auto
  from scan_sidecar(1)[OF ok] s have "scanned ?ls st" by auto
  then show ?thesis using ok s b by blast
qed



lemma read_gallery_fs:
  "read_text (gallery_fs folder content) (os_path_join folder ''galleryinfo.txt'') = Inr content"
  by (simp add: read_text_def gallery_fs_def os_path_join_def)

text \<open>
  C4, as the code has it: in the comment state every line that does not contain the
  marker \<open>Uploader's Comments\<close> is trimmed and appended to the comment buffer unless
  it equals the sentinel line, where the scan stops, so that the lines after it change
  nothing; a line that contains the marker is dropped in the comment state too. Without a
  sentinel line the buffer takes the lines up to the end of the input. The comment text
  of a returned record is the buffer of the comment section joined with newlines and
  stripped of leading and trailing newlines.
\<close>

theorem comment_state_buffer:
  "(comments st \<longrightarrow>
      scan_lines st ls =
        Inr (st\<lparr>comment_lines := comment_lines st
               @ map py_strip (filter (\<lambda>l. \<not> contains marker l) (takeWhile (\<lambda>l. l \<noteq> sentinel) ls))\<rparr>))
   \<and> (comments st \<longrightarrow> scan_lines st (pre @ sentinel # rest) = scan_lines st (pre @ [sentinel]))
   \<and> (comments st \<and> sentinel \<notin> set ls \<longrightarrow>
      scan_lines st ls =
        Inr (st\<lparr>comment_lines := comment_lines st @ map py_strip (filter (\<lambda>l. \<not> contains marker l) ls)\<rparr>))
   \<and> (read_text fs (os_path_join folder ''galleryinfo.txt'') = Inr content
        \<and> parse_galleryinfo fs folder = Inr r \<longrightarrow>
      galleries_comments r =
        strip_newlines (py_join newline (comment_buffer (comment_section (sidecar_lines content)))))"
proof -
  have a: "scan_lines st ls =
        Inr (st\<lparr>comment_lines := comment_lines st
               @ map py_strip (filter (\<lambda>l. \<not> contains marker l) (takeWhile (\<lambda>l. l \<noteq> sentinel) ls))\<rparr>)"
    if "comments st" for ls
    using scan_comment_state[OF that, of ls] by (simp add: comment_buffer_def)
  have tw: "takeWhile (\<lambda>l. l \<noteq> sentinel) (pre @ sentinel # rest) = takeWhile (\<lambda>l. l \<noteq> sentinel) (pre @ [sentinel])"
    by (induction pre) auto
  have b: "scan_lines st (pre @ sentinel # rest) = scan_lines st (pre @ [sentinel])" if "comments st"
    unfolding a[OF that] tw ..
  have c: "scan_lines st ls =
        Inr (st\<lparr>comment_lines := comment_lines st @ map py_strip (filter (\<lambda>l. \<not> contains marker l) ls)\<rparr>)"
    if "comments st" "sentinel \<notin> set ls"
  proof -
    have "takeWhile (\<lambda>l. l \<noteq> sentinel) ls = ls"
      using that(2) by (intro takeWhile_eq_all_conv[THEN iffD2]) auto
    then show ?thesis using a[OF that(1), of ls] by (simp only:)
  qed
  have d: "galleries_comments r =
        strip_newlines (py_join newline (comment_buffer (comment_section (sidecar_lines content))))"
    if "read_text fs (os_path_join folder ''galleryinfo.txt'') = Inr content"
      "parse_galleryinfo fs folder = Inr r"
  proof -
    from parse_Inr_scanned[OF that] obtain st g files mt where
      "scanned (sidecar_lines content) st"
      "build_record folder (basename folder) g files mt st = Inr r" by blast
    then show ?thesis using build_record_Inr[of folder "basename folder" g files mt st r]
      by (simp add: scanned_def)
  qed
  from a b c d show ?thesis by blast
qed

theorem comment_state_buffer_witness:
  "scan_lines (initial_locals\<lparr>comments := True\<rparr>) [''hello '', '' world'', sentinel, ''ignored'']
     = Inr (initial_locals\<lparr>comments := True, comment_lines := [''hello'', ''world'']\<rparr>)
   \<and> scan_lines (initial_locals\<lparr>comments := True\<rparr>) ([''hello '', '' world''] @ sentinel # [''ignored''])
     = scan_lines (initial_locals\<lparr>comments := True\<rparr>) ([''hello '', '' world''] @ [sentinel])
   \<and> scan_lines (initial_locals\<lparr>comments := True\<rparr>) [''hello '', '' world'']
     = Inr (initial_locals\<lparr>comments := True, comment_lines := [''hello'', ''world'']\<rparr>)
   \<and> map_sum id galleries_comments (parse_galleryinfo (gallery_fs ''7'' sidecar_repeated) ''7'')
     = Inr (strip_newlines (py_join newline (comment_buffer (comment_section (sidecar_lines sidecar_repeated)))))"
proof -
  let ?st = "initial_locals\<lparr>comments := True\<rparr>"
  have c: "comments ?st" by simp
  have n: "sentinel \<notin> set [''hello '', '' world'']" by code_simp
  have e1: "map py_strip (filter (\<lambda>l. \<not> contains marker l)
               (takeWhile (\<lambda>l. l \<noteq> sentinel) [''hello '', '' world'', sentinel, ''ignored''])) = [''hello'', ''world'']"
    by code_simp
  have e2: "map py_strip (filter (\<lambda>l. \<not> contains marker l) [''hello '', '' world'']) = [''hello'', ''world'']"
    by code_simp
  have cl: "comment_lines ?st = []" by (simp add: initial_locals_def)
  obtain r where p: "parse_galleryinfo (gallery_fs ''7'' sidecar_repeated) ''7'' = Inr r"
  proof -
    have "\<not> isl (parse_galleryinfo (gallery_fs ''7'' sidecar_repeated) ''7'')" by code_simp
    then show ?thesis using that by (cases "parse_galleryinfo (gallery_fs ''7'' sidecar_repeated) ''7''") auto
  qed
  note t1 = comment_state_buffer [of ?st "[''hello '', '' world'', sentinel, ''ignored'']"
      "[''hello '', '' world'']" "[''ignored'']" "gallery_fs ''7'' sidecar_repeated" "''7''" sidecar_repeated r]
  note t2 = comment_state_buffer [of ?st "[''hello '', '' world'']"
      "[]" "[]" "gallery_fs ''7'' sidecar_repeated" "''7''" sidecar_repeated r]
  have "scan_lines ?st [''hello '', '' world'', sentinel, ''ignored'']
     = Inr (?st\<lparr>comment_lines := comment_lines ?st
               @ map py_strip (filter (\<lambda>l. \<not> contains marker l)
                   (takeWhile (\<lambda>l. l \<noteq> sentinel) [''hello '', '' world'', sentinel, ''ignored'']))\<rparr>)"
    using t1 c by blast
  then have 1: "scan_lines ?st [''hello '', '' world'', sentinel, ''ignored'']
     = Inr (?st\<lparr>comment_lines := [''hello'', ''world'']\<rparr>)"
    unfolding e1 cl by simp
  have 2: "scan_lines ?st ([''hello '', '' world''] @ sentinel # [''ignored''])
     = scan_lines ?st ([''hello '', '' world''] @ [sentinel])"
    using t1 c by blast
  have "scan_lines ?st [''hello '', '' world'']
     = Inr (?st\<lparr>comment_lines := comment_lines ?st
               @ map py_strip (filter (\<lambda>l. \<not> contains marker l) [''hello '', '' world''])\<rparr>)"
    using t2 c n by blast
  then have 3: "scan_lines ?st [''hello '', '' world''] = Inr (?st\<lparr>comment_lines := [''hello'', ''world'']\<rparr>)"
    unfolding e2 cl by simp
  have 4: "galleries_comments r =
        strip_newlines (py_join newline (comment_buffer (comment_section (sidecar_lines sidecar_repeated))))"
    using t1 p read_gallery_fs[of "''7''" sidecar_repeated] by blast
  from 1 2 3 4 show ?thesis by (simp add: p)
qed

text \<open>
  C4 as stated fails at a comment line that contains the marker and is not the sentinel:
  the scan neither stops nor appends it, while the buffer of the specification holds it.
\<close>

theorem comment_state_marker_counterexample:
  "scan_lines (initial_locals\<lparr>comments := True\<rparr>) [''first'', ''see Uploader's Comments above'', ''last'']
     = Inr (initial_locals\<lparr>comments := True, comment_lines := [''first'', ''last'']\<rparr>)
   \<and> spec_comment_buffer [''first'', ''see Uploader's Comments above'', ''last'']
     = [''first'', ''see Uploader's Comments above'', ''last'']
   \<and> ''see Uploader's Comments above'' \<noteq> sentinel"
  by (simp add: marker_def sentinel_def spec_comment_buffer_def py_strip_def strip_where_def py_isspace_def
      initial_locals_def)

subsection \<open>parse_galleryinfo: fields, missing labels and malformed time stamps\<close>


text \<open>
  C10: when \<open>parse_galleryinfo\<close> returns a record for a sidecar, every one of the five
  recognized labels occurs on a header line before the comment marker, and the record holds,
  for each label, what the LAST such line gives: its value for Title and Uploaded By, the
  tags parsed from its value for Tags, the time stamp parsed from its value for Upload Time
  and Downloaded. Earlier lines with the same label are overwritten.
\<close>

theorem repeated_label_last_wins:
  assumes "read_text fs (os_path_join folder ''galleryinfo.txt'') = Inr content"
    and "parse_galleryinfo fs folder = Inr r"
  shows "header_values ''Title'' (sidecar_lines content) \<noteq> []
     \<and> title r = last (header_values ''Title'' (sidecar_lines content))
     \<and> header_values ''Uploaded By'' (sidecar_lines content) \<noteq> []
     \<and> upload_account r = last (header_values ''Uploaded By'' (sidecar_lines content))
     \<and> header_values ''Tags'' (sidecar_lines content) \<noteq> []
     \<and> tags r = parse_tags (last (header_values ''Tags'' (sidecar_lines content)))
     \<and> header_values ''Upload Time'' (sidecar_lines content) \<noteq> []
     \<and> strptime (last (header_values ''Upload Time'' (sidecar_lines content))) = Some (upload_time r)
     \<and> header_values ''Downloaded'' (sidecar_lines content) \<noteq> []
     \<and> strptime (last (header_values ''Downloaded'' (sidecar_lines content))) = Some (download_time r)"
proof -
  from parse_Inr_scanned[OF assms] obtain st g files mt where
    s: "scanned (sidecar_lines content) st"
    and b: "build_record folder (basename folder) g files mt st = Inr r" by blast
  note f = build_record_Inr[OF b]
  from s f show ?thesis
    by (simp add: scanned_def split: if_splits)
qed

theorem repeated_label_last_wins_witness:
  "map_sum id (\<lambda>r. (title r, upload_account r, tags r, upload_time r, download_time r))
      (parse_galleryinfo (gallery_fs ''7'' sidecar_repeated) ''7'')
     = Inr (''Second'', ''me'', [(''b'', ''2''), (''untagged'', ''3'')],
            \<lparr>dt_year = 2020, dt_month = 1, dt_day = 5, dt_hour = 10, dt_minute = 0\<rparr>,
            \<lparr>dt_year = 2022, dt_month = 3, dt_day = 4, dt_hour = 5, dt_minute = 6\<rparr>)
   \<and> header_values ''Title'' (sidecar_lines sidecar_repeated) = [''First'', ''Second'']
   \<and> header_values ''Tags'' (sidecar_lines sidecar_repeated) = [''a:1'', ''b:2, 3'']
   \<and> header_values ''Downloaded'' (sidecar_lines sidecar_repeated) = [''2021-02-03 04:05'', ''2022-03-04 05:06'']"
proof -
  obtain r where p: "parse_galleryinfo (gallery_fs ''7'' sidecar_repeated) ''7'' = Inr r"
  proof -
    have "\<not> isl (parse_galleryinfo (gallery_fs ''7'' sidecar_repeated) ''7'')" by code_simp
    then show ?thesis using that by (cases "parse_galleryinfo (gallery_fs ''7'' sidecar_repeated) ''7''") auto
  qed
  note w = repeated_label_last_wins [OF read_gallery_fs p]
  have v: "header_values ''Title'' (sidecar_lines sidecar_repeated) = [''First'', ''Second'']"
    "header_values ''Tags'' (sidecar_lines sidecar_repeated) = [''a:1'', ''b:2, 3'']"
    "header_values ''Downloaded'' (sidecar_lines sidecar_repeated) = [''2021-02-03 04:05'', ''2022-03-04 05:06'']"
    "header_values ''Uploaded By'' (sidecar_lines sidecar_repeated) = [''me'']"
    "header_values ''Upload Time'' (sidecar_lines sidecar_repeated) = [''2020-01-05 10:00'']"
    by code_simp+
  have e: "parse_tags ''b:2, 3'' = [(''b'', ''2''), (''untagged'', ''3'')]"
    "strptime ''2020-01-05 10:00'' = Some \<lparr>dt_year = 2020, dt_month = 1, dt_day = 5, dt_hour = 10, dt_minute = 0\<rparr>"
    "strptime ''2022-03-04 05:06'' = Some \<lparr>dt_year = 2022, dt_month = 3, dt_day = 4, dt_hour = 5, dt_minute = 6\<rparr>"
    by code_simp+
  from w show ?thesis by (simp add: v e p)
qed











subsection \<open>The round trip of a written sidecar\<close>




















































end
